theory Spec2Isabelle
  imports Complex_Main
begin

section \<open>JavaScript numbers\<close>

text \<open>
  The Workbench component computes with JavaScript numbers. A number is modelled as a
  real, or one of the three values that are not finite: positive infinity, negative
  infinity and NaN. Rounding is not modelled, and the two zeros are the same number (a
  division by zero takes the sign of its numerator). Every operator below is the operator of the
  language on these values: NaN is absorbing, a comparison with NaN is false, and a
  division by zero gives an infinity or NaN rather than a number.
\<close>

datatype number = Fin real | PInf | NInf | NaN

fun jneg :: "number \<Rightarrow> number" where
  "jneg (Fin a) = Fin (- a)"
| "jneg PInf = NInf"
| "jneg NInf = PInf"
| "jneg NaN = NaN"

fun jadd :: "number \<Rightarrow> number \<Rightarrow> number" where
  "jadd (Fin a) (Fin b) = Fin (a + b)"
| "jadd NaN _ = NaN"
| "jadd _ NaN = NaN"
| "jadd PInf NInf = NaN"
| "jadd NInf PInf = NaN"
| "jadd PInf _ = PInf"
| "jadd NInf _ = NInf"
| "jadd _ PInf = PInf"
| "jadd _ NInf = NInf"

definition jsub :: "number \<Rightarrow> number \<Rightarrow> number" where
  "jsub a b = jadd a (jneg b)"

text \<open>The sign of a number that is not NaN: \<open>-1\<close>, \<open>0\<close> or \<open>1\<close>.\<close>

fun jsign :: "number \<Rightarrow> int" where
  "jsign (Fin a) = (if a < 0 then - 1 else if a = 0 then 0 else 1)"
| "jsign PInf = 1"
| "jsign NInf = - 1"
| "jsign NaN = 0"

definition inf_of_sign :: "int \<Rightarrow> number" where
  "inf_of_sign s = (if s < 0 then NInf else if s = 0 then NaN else PInf)"

fun jmul :: "number \<Rightarrow> number \<Rightarrow> number" where
  "jmul (Fin a) (Fin b) = Fin (a * b)"
| "jmul NaN _ = NaN"
| "jmul _ NaN = NaN"
| "jmul a b = inf_of_sign (jsign a * jsign b)"

fun jdiv :: "number \<Rightarrow> number \<Rightarrow> number" where
  "jdiv (Fin a) (Fin b) = (if b = 0 then inf_of_sign (jsign (Fin a)) else Fin (a / b))"
| "jdiv NaN _ = NaN"
| "jdiv _ NaN = NaN"
| "jdiv (Fin a) _ = Fin 0"
| "jdiv a (Fin b) = inf_of_sign (jsign a * (if b < 0 then - 1 else 1))"
| "jdiv _ _ = NaN"

fun jlt :: "number \<Rightarrow> number \<Rightarrow> bool" where
  "jlt (Fin a) (Fin b) = (a < b)"
| "jlt NaN _ = False"
| "jlt _ NaN = False"
| "jlt NInf b = (b \<noteq> NInf)"
| "jlt a PInf = (a \<noteq> PInf)"
| "jlt _ _ = False"

definition jgt :: "number \<Rightarrow> number \<Rightarrow> bool" where
  "jgt a b = jlt b a"

text \<open>\<open>a <= b\<close> and \<open>a === b\<close>: both false when an operand is NaN.\<close>

definition jle :: "number \<Rightarrow> number \<Rightarrow> bool" where
  "jle a b = (a \<noteq> NaN \<and> b \<noteq> NaN \<and> (a = b \<or> jlt a b))"

definition jseq :: "number \<Rightarrow> number \<Rightarrow> bool" where
  "jseq a b = (a \<noteq> NaN \<and> a = b)"

text \<open>\<open>Math.min\<close> and \<open>Math.max\<close> of two arguments: NaN when either is NaN.\<close>

definition Math_min :: "number \<Rightarrow> number \<Rightarrow> number" where
  "Math_min a b = (if a = NaN \<or> b = NaN then NaN else if jlt b a then b else a)"

definition Math_max :: "number \<Rightarrow> number \<Rightarrow> number" where
  "Math_max a b = (if a = NaN \<or> b = NaN then NaN else if jlt a b then b else a)"

section \<open>Data model of the Workbench component\<close>

text \<open>Component dimensions constants.\<close>

definition CANVAS_HEIGHT :: number where "CANVAS_HEIGHT = Fin 512"
definition CANVAS_WIDTH :: number where "CANVAS_WIDTH = Fin 1813"
definition TIME_AXIS_SIZE :: number where "TIME_AXIS_SIZE = Fin 30"
definition SCROLLBAR_RESERVED :: number where "SCROLLBAR_RESERVED = Fin 20"

text \<open>
  The type \<open>Annotation\<close> of AudioAnnotator.js. Field \<open>id\<close> is \<open>ann_id\<close> here.
\<close>

record Annotation =
  ann_id :: string
  annotation :: string
  startTime :: number
  endTime :: number
  startFrequency :: number
  endFrequency :: number
  active :: bool

text \<open>
  A spectrogram tile. Of the \<open>Image\<close> object the model keeps the \<open>src\<close> string; the
  loading of the image and its \<open>onload\<close> callback belong to the browser.
\<close>

record Spectrogram =
  tile_start :: number
  tile_end :: number
  image_src :: string

record SpectroParams =
  sp_nfft :: number
  sp_winsize :: number
  sp_overlap :: number
  sp_zoom :: number

record SpectroDetails =
  sd_nfft :: number
  sd_winsize :: number
  sd_overlap :: number
  sd_zoom :: nat
  urlPrefix :: string
  urlFileName :: string
  urlFileExtension :: string
  images :: "Spectrogram list"

record SpectroUrlsParams =
  up_nfft :: number
  up_winsize :: number
  up_overlap :: number
  urls :: "string list"

text \<open>
  The props the modelled methods read. The callback \<open>onAnnotationCreated\<close> is modelled
  by the log \<open>created\<close> of the component below.
\<close>

record WorkbenchProps =
  duration :: number
  p_startFrequency :: number
  frequencyRange :: number
  spectroUrlsParams :: "SpectroUrlsParams list"

text \<open>
  The component instance: the React state (\<open>wrapperWidth\<close> to \<open>newAnnotation\<close>), the
  instance fields of the drawing gesture (\<open>isDrawing\<close> to \<open>drawStartFrequency\<close>), the
  attributes of the two canvases that the methods read or assign, and the list of the
  arguments \<open>props.onAnnotationCreated\<close> was called with, oldest first.

  \<open>currentZoom\<close> is a zoom factor or \<open>undefined\<close> (\<open>None\<close>): \<open>zoom\<close> stores what it
  reads from an array, and a read out of range is \<open>undefined\<close>. The canvas attributes
  hold the number that was assigned; the conversion of the browser to an integer
  attribute is not modelled.
\<close>

record Workbench =
  wrapperWidth :: number
  wrapperHeight :: number
  timePxRatio :: number
  freqPxRatio :: number
  currentParams :: SpectroParams
  currentZoom :: "nat option"
  spectrograms :: "SpectroDetails list"
  newAnnotation :: "Annotation option"
  isDrawing :: bool
  drawPxMove :: nat
  drawStartTime :: number
  drawStartFrequency :: number
  canvas_width :: number
  canvas_height :: number
  timeAxis_width :: number
  created :: "Annotation list"

text \<open>The result of \<open>getBoundingClientRect()\<close>, read anew by every handler.\<close>

record ClientRect =
  rect_left :: number
  rect_right :: number
  rect_top :: number
  rect_bottom :: number

record PointerEvent =
  clientX :: number
  clientY :: number

record WheelEvent =
  deltaY :: number
  defaultPrevented :: bool

section \<open>Coordinate transforms\<close>

definition getTimeFromClientX :: "Workbench \<Rightarrow> ClientRect \<Rightarrow> number \<Rightarrow> number" where
  "getTimeFromClientX w bounds x =
     (let offset = (if jlt x (rect_left bounds) then Fin 0
                    else if jgt x (rect_right bounds) then canvas_width w
                    else jsub x (rect_left bounds))
      in jdiv offset (timePxRatio w))"

definition getFrequencyFromClientY ::
  "WorkbenchProps \<Rightarrow> Workbench \<Rightarrow> ClientRect \<Rightarrow> number \<Rightarrow> number" where
  "getFrequencyFromClientY p w bounds y =
     (let offset = (if jlt y (rect_top bounds) then canvas_height w
                    else if jgt y (rect_bottom bounds) then Fin 0
                    else jsub (rect_bottom bounds) y)
      in jadd (p_startFrequency p) (jdiv offset (freqPxRatio w)))"

section \<open>Tile pyramid builder\<close>

datatype error = TypeError | RangeError

text \<open>
  Functions of the language the builder calls and this development does not define:
  \<open>re_match u\<close> is the result of \<open>u.match(baseUrlRegexp)\<close> (\<open>None\<close> when the pattern
  does not match, else the three groups), \<open>toFixed1 x\<close> is \<open>x.toFixed(1)\<close> and
  \<open>toString x\<close> is \<open>x.toString()\<close>.
\<close>

record Builtins =
  re_match :: "string \<Rightarrow> (string \<times> string \<times> string) option"
  toFixed1 :: "number \<Rightarrow> string"
  toString :: "number \<Rightarrow> string"

definition Number_isInteger :: "number \<Rightarrow> bool" where
  "Number_isInteger x = (case x of Fin a \<Rightarrow> real_of_int \<lfloor>a\<rfloor> = a | _ \<Rightarrow> False)"

definition numberString :: "Builtins \<Rightarrow> number \<Rightarrow> string" where
  "numberString rt x = (if Number_isInteger x then toFixed1 rt x else toString rt x)"

text \<open>
  \<open>Math.log2(m)\<close> of a positive integer \<open>m\<close> is an integer \<open>k\<close> exactly when
  \<open>m = 2 ^ k\<close>, and then \<open>k < m\<close>. \<open>Math_log2_int m\<close> is that \<open>k\<close>, and \<open>None\<close> when the
  logarithm is not an integer: \<open>Array(nbZooms)\<close> raises a RangeError there.
\<close>

definition Math_log2_int :: "nat \<Rightarrow> nat option" where
  "Math_log2_int m = List.find (\<lambda>k. 2 ^ k = m) [0..<m]"

text \<open>The tiles of one zoom level: \<open>[...Array(zoom)].map((_, i) => ...)\<close>.\<close>

definition buildImages ::
  "Builtins \<Rightarrow> WorkbenchProps \<Rightarrow> string \<times> string \<times> string \<Rightarrow> nat \<Rightarrow> Spectrogram list" where
  "buildImages rt p base zoom =
     (let step = jdiv (duration p) (Fin (real zoom)) in
      map (\<lambda>i.
        let start = jmul (Fin (real i)) step;
            end = jmul (Fin (real (i + 1))) step;
            strStart = numberString rt start;
            strEnd = numberString rt end
        in \<lparr>tile_start = start, tile_end = end,
            image_src = fst base @ fst (snd base) @ ''_'' @ strStart @ ''_'' @ strEnd
                        @ snd (snd base)\<rparr>) [0..<zoom])"

text \<open>
  The callback of \<open>params.flatMap\<close>, for one configuration. \<open>conf.urls[0]\<close> of an empty
  list is \<open>undefined\<close>, and calling \<open>match\<close> on it raises a TypeError.
\<close>

definition buildConf ::
  "Builtins \<Rightarrow> WorkbenchProps \<Rightarrow> SpectroUrlsParams \<Rightarrow> error + SpectroDetails list" where
  "buildConf rt p conf =
     (case urls conf of
        [] \<Rightarrow> Inl TypeError
      | u # _ \<Rightarrow>
          (let base = (case re_match rt u of
                         Some parts \<Rightarrow> parts
                       | None \<Rightarrow> ([], [], []))
           in case Math_log2_int (length (urls conf) + 1) of
                None \<Rightarrow> Inl RangeError
              | Some nbZooms \<Rightarrow>
                  (let zoomLevels = map (\<lambda>i. (2::nat) ^ i) [0..<nbZooms] in
                   Inr (map (\<lambda>zoom.
                     \<lparr>sd_nfft = up_nfft conf, sd_winsize = up_winsize conf,
                      sd_overlap = up_overlap conf, sd_zoom = zoom,
                      urlPrefix = fst base, urlFileName = fst (snd base),
                      urlFileExtension = snd (snd base),
                      images = buildImages rt p base zoom\<rparr>) zoomLevels))))"

text \<open>\<open>flatMap\<close> with a callback that may raise: the first error ends the call.\<close>

fun flatMap :: "('a \<Rightarrow> error + 'b list) \<Rightarrow> 'a list \<Rightarrow> error + 'b list" where
  "flatMap f [] = Inr []"
| "flatMap f (x # xs) =
     (case f x of
        Inl e \<Rightarrow> Inl e
      | Inr ys \<Rightarrow> (case flatMap f xs of Inl e \<Rightarrow> Inl e | Inr zs \<Rightarrow> Inr (ys @ zs)))"

definition buildSpectrogramsDetails ::
  "Builtins \<Rightarrow> WorkbenchProps \<Rightarrow> SpectroUrlsParams list \<Rightarrow> error + SpectroDetails list" where
  "buildSpectrogramsDetails rt p params = flatMap (buildConf rt p) params"

section \<open>Construction and mounting\<close>

definition constructor_Workbench :: "WorkbenchProps \<Rightarrow> Workbench" where
  "constructor_Workbench p =
     \<lparr>wrapperWidth = CANVAS_WIDTH,
      wrapperHeight = jadd (jadd CANVAS_HEIGHT TIME_AXIS_SIZE) SCROLLBAR_RESERVED,
      timePxRatio = jdiv CANVAS_WIDTH (duration p),
      freqPxRatio = jdiv CANVAS_HEIGHT (frequencyRange p),
      currentParams =
        (case spectroUrlsParams p of
           [] \<Rightarrow> \<lparr>sp_nfft = Fin 1, sp_winsize = Fin 1, sp_overlap = Fin 1, sp_zoom = Fin 1\<rparr>
         | params # _ \<Rightarrow>
             \<lparr>sp_nfft = up_nfft params, sp_winsize = up_winsize params,
              sp_overlap = up_overlap params, sp_zoom = Fin 1\<rparr>),
      currentZoom = Some 1,
      spectrograms = [],
      newAnnotation = None,
      isDrawing = False,
      drawPxMove = 0,
      drawStartTime = Fin 0,
      drawStartFrequency = Fin 0,
      canvas_width = CANVAS_WIDTH,
      canvas_height = CANVAS_HEIGHT,
      timeAxis_width = CANVAS_WIDTH,
      created = []\<rparr>"

definition componentDidMount ::
  "Builtins \<Rightarrow> WorkbenchProps \<Rightarrow> Workbench \<Rightarrow> error + Workbench" where
  "componentDidMount rt p w =
     (case buildSpectrogramsDetails rt p (spectroUrlsParams p) of
        Inl e \<Rightarrow> Inl e
      | Inr details \<Rightarrow> Inr (w\<lparr>spectrograms := details\<rparr>))"

section \<open>Zoom controller\<close>

definition getCurrentDetails :: "Workbench \<Rightarrow> SpectroDetails list" where
  "getCurrentDetails w =
     filter (\<lambda>details.
        jseq (sp_nfft (currentParams w)) (sd_nfft details) \<and>
        jseq (sp_winsize (currentParams w)) (sd_winsize details) \<and>
        jseq (sp_overlap (currentParams w)) (sd_overlap details)) (spectrograms w)"

text \<open>\<open>Array.prototype.findIndex\<close>: the first index whose element satisfies \<open>P\<close>, else \<open>-1\<close>.\<close>

fun findIndex :: "('a \<Rightarrow> bool) \<Rightarrow> 'a list \<Rightarrow> int" where
  "findIndex P [] = - 1"
| "findIndex P (x # xs) =
     (if P x then 0 else (let i = findIndex P xs in if i < 0 then - 1 else i + 1))"

text \<open>An array read \<open>xs[i]\<close>: \<open>undefined\<close> (\<open>None\<close>) out of range.\<close>

definition array_at :: "'a list \<Rightarrow> int \<Rightarrow> 'a option" where
  "array_at xs i = (if 0 \<le> i \<and> i < int (length xs) then Some (xs ! nat i) else None)"

text \<open>The number a zoom factor stands for in arithmetic: \<open>undefined\<close> is NaN there.\<close>

definition toNumber :: "nat option \<Rightarrow> number" where
  "toNumber z = (case z of None \<Rightarrow> NaN | Some n \<Rightarrow> Fin (real n))"

definition zoomLevels :: "Workbench \<Rightarrow> nat list" where
  "zoomLevels w = sort (map sd_zoom (getCurrentDetails w))"

definition zoom :: "WorkbenchProps \<Rightarrow> int \<Rightarrow> Workbench \<Rightarrow> Workbench" where
  "zoom p direction w =
     (let oldZoomIdx = findIndex (\<lambda>factor. Some factor = currentZoom w) (zoomLevels w);
          newZoom = (if direction > 0 \<and> oldZoomIdx < 4
                       then array_at (zoomLevels w) (oldZoomIdx + 1)
                     else if direction < 0 \<and> oldZoomIdx > 0
                       then array_at (zoomLevels w) (oldZoomIdx - 1)
                     else currentZoom w)
      in w\<lparr>canvas_width := jmul (wrapperWidth w) (toNumber newZoom),
           timeAxis_width := jmul (wrapperWidth w) (toNumber newZoom),
           currentZoom := newZoom,
           timePxRatio := jdiv (jmul (wrapperWidth w) (toNumber newZoom)) (duration p)\<rparr>)"

text \<open>
  The wheel handler returns the event, with \<open>preventDefault()\<close> recorded in it, and the
  component.
\<close>

definition onWheelZoom ::
  "WorkbenchProps \<Rightarrow> WheelEvent \<Rightarrow> Workbench \<Rightarrow> WheelEvent \<times> Workbench" where
  "onWheelZoom p event w =
     (event\<lparr>defaultPrevented := True\<rparr>,
      if jlt (deltaY event) (Fin 0) then zoom p 1 w
      else if jgt (deltaY event) (Fin 0) then zoom p (- 1) w
      else w)"

text \<open>A sequence of calls of \<open>zoom\<close>, by the buttons or the wheel.\<close>

definition zooms :: "WorkbenchProps \<Rightarrow> int list \<Rightarrow> Workbench \<Rightarrow> Workbench" where
  "zooms p directions w = fold (zoom p) directions w"

section \<open>Annotation drawing\<close>

definition onStartNewAnnotation ::
  "WorkbenchProps \<Rightarrow> ClientRect \<Rightarrow> PointerEvent \<Rightarrow> Workbench \<Rightarrow> Workbench" where
  "onStartNewAnnotation p bounds event w =
     (let newTime = getTimeFromClientX w bounds (clientX event);
          newFrequency = getFrequencyFromClientY p w bounds (clientY event)
      in w\<lparr>isDrawing := True,
           drawPxMove := 0,
           drawStartTime := newTime,
           drawStartFrequency := newFrequency,
           newAnnotation := Some
             \<lparr>ann_id = [], annotation = [],
              startTime = newTime, endTime = newTime,
              startFrequency = newFrequency, endFrequency = newFrequency,
              active = False\<rparr>\<rparr>)"

definition computeNewAnnotation ::
  "WorkbenchProps \<Rightarrow> Workbench \<Rightarrow> ClientRect \<Rightarrow> PointerEvent \<Rightarrow> Annotation" where
  "computeNewAnnotation p w bounds e =
     (let currentTime = getTimeFromClientX w bounds (clientX e);
          currentFrequency = getFrequencyFromClientY p w bounds (clientY e)
      in \<lparr>ann_id = [], annotation = [],
          startTime = Math_min currentTime (drawStartTime w),
          endTime = Math_max currentTime (drawStartTime w),
          startFrequency = Math_min currentFrequency (drawStartFrequency w),
          endFrequency = Math_max currentFrequency (drawStartFrequency w),
          active = False\<rparr>)"

text \<open>
  \<open>this.isDrawing && ++this.drawPxMove > 2\<close>: the counter is incremented only while
  drawing, and compared after the increment.
\<close>

definition onUpdateNewAnnotation ::
  "WorkbenchProps \<Rightarrow> ClientRect \<Rightarrow> PointerEvent \<Rightarrow> Workbench \<Rightarrow> Workbench" where
  "onUpdateNewAnnotation p bounds e w =
     (if isDrawing w then
        (let w1 = w\<lparr>drawPxMove := drawPxMove w + 1\<rparr> in
         if drawPxMove w1 > 2
           then w1\<lparr>newAnnotation := Some (computeNewAnnotation p w1 bounds e)\<rparr>
         else w1)
      else w)"

definition onEndNewAnnotation ::
  "WorkbenchProps \<Rightarrow> ClientRect \<Rightarrow> PointerEvent \<Rightarrow> Workbench \<Rightarrow> Workbench" where
  "onEndNewAnnotation p bounds e w =
     (let w1 = (if isDrawing w \<and> drawPxMove w > 2
                  then w\<lparr>created := created w @ [computeNewAnnotation p w bounds e],
                         newAnnotation := None\<rparr>
                else w)
      in w1\<lparr>isDrawing := False, drawPxMove := 0\<rparr>)"

text \<open>
  A gesture: a pointer-down on the canvas, the pointer-move events that follow, and the
  pointer-up. Each event comes with the bounding rectangle of the canvas at its time.
\<close>

type_synonym pointer = "ClientRect \<times> PointerEvent"

definition pointerMoves :: "WorkbenchProps \<Rightarrow> pointer list \<Rightarrow> Workbench \<Rightarrow> Workbench" where
  "pointerMoves p ms w = fold (\<lambda>m. onUpdateNewAnnotation p (fst m) (snd m)) ms w"

definition gesture ::
  "WorkbenchProps \<Rightarrow> pointer \<Rightarrow> pointer list \<Rightarrow> pointer \<Rightarrow> Workbench \<Rightarrow> Workbench" where
  "gesture p down ms up w =
     onEndNewAnnotation p (fst up) (snd up)
       (pointerMoves p ms (onStartNewAnnotation p (fst down) (snd down) w))"

section \<open>Time axis\<close>

text \<open>
  The step selection of \<open>renderTimeAxis\<close>: the pair \<open>(step, bigStep)\<close> the ticks are
  drawn with.
\<close>

definition renderTimeAxis_steps :: "Workbench \<Rightarrow> nat \<times> nat" where
  "renderTimeAxis_steps w =
     (let durationOnScreen = jdiv (wrapperWidth w) (timePxRatio w) in
      if jle durationOnScreen (Fin 60) then (1, 5)
      else if jgt durationOnScreen (Fin 60) \<and> jle durationOnScreen (Fin 120) then (2, 5)
      else if jgt durationOnScreen (Fin 120) \<and> jle durationOnScreen (Fin 240) then (4, 5)
      else (10, 6))"

section \<open>A task with six zoom levels\<close>

text \<open>
  A configuration with \<open>63 = 2 ^ 6 - 1\<close> URLs, the props of a task of 100 seconds
  between 50 Hz and 1074 Hz, the component after its construction and mounting, and the
  bounding rectangle of its canvas. The builtins are those of a URL that does not match
  the pattern.
\<close>

definition example_conf :: SpectroUrlsParams where
  "example_conf =
     \<lparr>up_nfft = Fin 4096, up_winsize = Fin 2000, up_overlap = Fin 90,
      urls = replicate 63 ''spectro.png''\<rparr>"

definition example_props :: WorkbenchProps where
  "example_props =
     \<lparr>duration = Fin 100, p_startFrequency = Fin 50, frequencyRange = Fin 1024,
      spectroUrlsParams = [example_conf]\<rparr>"

definition example_builtins :: Builtins where
  "example_builtins = \<lparr>re_match = (\<lambda>u. None), toFixed1 = (\<lambda>x. []), toString = (\<lambda>x. [])\<rparr>"

definition example_mounted :: Workbench where
  "example_mounted =
     (case componentDidMount example_builtins example_props (constructor_Workbench example_props) of
        Inr w \<Rightarrow> w
      | Inl e \<Rightarrow> constructor_Workbench example_props)"

definition example_bounds :: ClientRect where
  "example_bounds =
     \<lparr>rect_left = Fin 35, rect_right = Fin 1848, rect_top = Fin 80, rect_bottom = Fin 592\<rparr>"

text \<open>
  A drag on this component: the pointer goes down at 10 s and 500 Hz, moves three times,
  and is released at 4 s and 200 Hz. \<open>example_dragging\<close> is the component after the
  third move.
\<close>

definition example_down :: pointer where
  "example_down = (example_bounds, \<lparr>clientX = Fin (2163 / 10), clientY = Fin 367\<rparr>)"

definition example_move :: pointer where
  "example_move = (example_bounds, \<lparr>clientX = Fin 150, clientY = Fin 400\<rparr>)"

definition example_up :: pointer where
  "example_up = (example_bounds, \<lparr>clientX = Fin (2688 / 25), clientY = Fin 517\<rparr>)"

definition example_dragging :: Workbench where
  "example_dragging =
     pointerMoves example_props [example_move, example_move, example_move]
       (onStartNewAnnotation example_props (fst example_down) (snd example_down) example_mounted)"

section \<open>Numbers that are finite\<close>

lemma jle_Fin [simp]: "jle (Fin a) (Fin b) = (a \<le> b)"
  by (auto simp: jle_def)

lemma jgt_Fin [simp]: "jgt (Fin a) (Fin b) = (b < a)"
  by (simp add: jgt_def)

lemma jsub_Fin [simp]: "jsub (Fin a) (Fin b) = Fin (a - b)"
  by (simp add: jsub_def)

lemma jlt_asym: "jlt a b \<Longrightarrow> \<not> jlt b a"
  by (cases a; cases b) auto

lemma Math_min_Fin [simp]: "Math_min (Fin a) (Fin b) = Fin (min a b)"
  by (auto simp: Math_min_def)

lemma Math_max_Fin [simp]: "Math_max (Fin a) (Fin b) = Fin (max a b)"
  by (auto simp: Math_max_def)

section \<open>The builder on a list of \<open>2 ^ k - 1\<close> URLs\<close>

lemma find_upt_first:
  assumes "k < m" and "P k" and "\<And>j. j < k \<Longrightarrow> \<not> P j"
  shows "List.find P [0..<m] = Some k"
  using assms by (auto simp: find_Some_iff intro!: exI [of _ k])

lemma Math_log2_int_power: "Math_log2_int (2 ^ k) = Some k"
  unfolding Math_log2_int_def
  by (rule find_upt_first) auto

lemma buildImages_length: "length (buildImages rt p base z) = z"
  by (simp add: buildImages_def Let_def)

lemma buildImages_nth:
  assumes "duration p = Fin d" and "i < z"
  shows "tile_start (buildImages rt p base z ! i) = Fin (real i * d / real z)"
    and "tile_end (buildImages rt p base z ! i) = Fin ((real i + 1) * d / real z)"
  using assms by (simp_all add: buildImages_def Let_def add.commute)

lemma buildImages_tiles:
  assumes d: "duration p = Fin d" and pos: "0 < d" and z: "0 < z"
  shows "\<forall>i<z. tile_start (buildImages rt p base z ! i) = Fin (real i * d / real z) \<and>
               tile_end (buildImages rt p base z ! i) = Fin ((real i + 1) * d / real z) \<and>
               jlt (tile_start (buildImages rt p base z ! i)) (tile_end (buildImages rt p base z ! i))"
    and "tile_start (buildImages rt p base z ! 0) = Fin 0"
    and "tile_end (buildImages rt p base z ! (z - 1)) = Fin d"
    and "\<forall>i. i + 1 < z \<longrightarrow>
           tile_end (buildImages rt p base z ! i) = tile_start (buildImages rt p base z ! (i + 1))"
proof -
  show "\<forall>i<z. tile_start (buildImages rt p base z ! i) = Fin (real i * d / real z) \<and>
               tile_end (buildImages rt p base z ! i) = Fin ((real i + 1) * d / real z) \<and>
               jlt (tile_start (buildImages rt p base z ! i)) (tile_end (buildImages rt p base z ! i))"
    using pos z by (auto simp: buildImages_nth [OF d] divide_strict_right_mono)
  show "tile_start (buildImages rt p base z ! 0) = Fin 0"
    using z by (simp add: buildImages_nth [OF d])
  have "real (z - 1) + 1 = real z" using z by simp
  then show "tile_end (buildImages rt p base z ! (z - 1)) = Fin d"
    using z by (simp add: buildImages_nth [OF d])
  show "\<forall>i. i + 1 < z \<longrightarrow>
           tile_end (buildImages rt p base z ! i) = tile_start (buildImages rt p base z ! (i + 1))"
    by (simp add: buildImages_nth [OF d])
qed

lemma buildConf_power:
  assumes "length (urls conf) = 2 ^ k - 1" and "1 \<le> k"
  shows "buildConf rt p conf =
           Inr (map (\<lambda>zoom.
                 \<lparr>sd_nfft = up_nfft conf, sd_winsize = up_winsize conf,
                  sd_overlap = up_overlap conf, sd_zoom = zoom,
                  urlPrefix = fst (case re_match rt (hd (urls conf)) of
                                     Some parts \<Rightarrow> parts | None \<Rightarrow> ([], [], [])),
                  urlFileName = fst (snd (case re_match rt (hd (urls conf)) of
                                     Some parts \<Rightarrow> parts | None \<Rightarrow> ([], [], []))),
                  urlFileExtension = snd (snd (case re_match rt (hd (urls conf)) of
                                     Some parts \<Rightarrow> parts | None \<Rightarrow> ([], [], []))),
                  images = buildImages rt p (case re_match rt (hd (urls conf)) of
                                     Some parts \<Rightarrow> parts | None \<Rightarrow> ([], [], [])) zoom\<rparr>)
                (map (\<lambda>i. 2 ^ i) [0..<k]))"
proof -
  have "(2::nat) ^ k \<ge> 2" using assms(2) self_le_power [of 2 k] by (cases k) auto
  then have ne: "urls conf \<noteq> []" and len: "length (urls conf) + 1 = 2 ^ k"
    using assms(1) by auto
  from ne obtain u us where u: "urls conf = u # us" by (cases "urls conf") auto
  have lg: "Math_log2_int (length (urls conf) + 1) = Some k"
    by (simp only: len Math_log2_int_power)
  show ?thesis
    unfolding buildConf_def lg by (simp only: u list.case option.case Let_def list.sel)
qed

section \<open>The mounted example\<close>

lemma buildConf_levels:
  assumes "length (urls conf) = 2 ^ k - 1" and "1 \<le> k"
  shows "\<exists>levels. buildConf rt p conf = Inr levels \<and>
           map sd_zoom levels = map (\<lambda>i. 2 ^ i) [0..<k] \<and>
           (\<forall>lv \<in> set levels.
              sd_nfft lv = up_nfft conf \<and> sd_winsize lv = up_winsize conf \<and>
              sd_overlap lv = up_overlap conf)"
  unfolding buildConf_power [OF assms]
  by (rule exI, rule conjI, rule refl) (auto simp: comp_def)

lemma example_build:
  "\<exists>levels. buildConf example_builtins example_props example_conf = Inr levels \<and>
     map sd_zoom levels = [1, 2, 4, 8, 16, 32] \<and>
     (\<forall>lv \<in> set levels.
        sd_nfft lv = Fin 4096 \<and> sd_winsize lv = Fin 2000 \<and> sd_overlap lv = Fin 90)"
proof -
  have len: "length (urls example_conf) = 2 ^ 6 - 1" by (simp add: example_conf_def)
  have upt: "[0..<6] = [0, 1, 2, 3, 4, 5::nat]" by (simp add: upt_conv_Cons)
  have six: "(1::nat) \<le> 6" by simp
  have n: "up_nfft example_conf = Fin 4096" "up_winsize example_conf = Fin 2000"
    "up_overlap example_conf = Fin 90"
    by (simp_all add: example_conf_def)
  show ?thesis
    using buildConf_levels [OF len six, of example_builtins example_props]
    unfolding upt n by simp
qed

lemma example_spectrograms:
  "map sd_zoom (spectrograms example_mounted) = [1, 2, 4, 8, 16, 32] \<and>
   getCurrentDetails example_mounted = spectrograms example_mounted \<and>
   example_mounted =
     (constructor_Workbench example_props)\<lparr>spectrograms := spectrograms example_mounted\<rparr>"
proof -
  from example_build obtain levels where
    b: "buildConf example_builtins example_props example_conf = Inr levels"
    and z: "map sd_zoom levels = [1, 2, 4, 8, 16, 32]"
    and r: "\<forall>lv \<in> set levels.
        sd_nfft lv = Fin 4096 \<and> sd_winsize lv = Fin 2000 \<and> sd_overlap lv = Fin 90"
    by (elim exE conjE)
  have sp: "spectroUrlsParams example_props = [example_conf]"
    by (simp add: example_props_def)
  have "buildSpectrogramsDetails example_builtins example_props (spectroUrlsParams example_props)
          = Inr levels"
    by (simp add: buildSpectrogramsDetails_def sp b)
  then have m: "example_mounted = (constructor_Workbench example_props)\<lparr>spectrograms := levels\<rparr>"
    by (simp add: example_mounted_def componentDidMount_def)
  have s: "spectrograms example_mounted = levels"
    by (simp add: m)
  have cp: "currentParams example_mounted =
              \<lparr>sp_nfft = Fin 4096, sp_winsize = Fin 2000, sp_overlap = Fin 90, sp_zoom = Fin 1\<rparr>"
    by (simp add: m constructor_Workbench_def sp example_conf_def)
  have "getCurrentDetails example_mounted = levels"
    unfolding getCurrentDetails_def s cp using r by (simp add: jseq_def)
  then show ?thesis
    using z s m by simp
qed

lemma example_zoomLevels: "zoomLevels example_mounted = [1, 2, 4, 8, 16, 32]"
  using example_spectrograms by (simp add: zoomLevels_def)

lemma example_fields:
  "timePxRatio example_mounted = Fin (1813 / 100)"
  "freqPxRatio example_mounted = Fin (1 / 2)"
  "wrapperWidth example_mounted = Fin 1813"
  "canvas_width example_mounted = Fin 1813"
  "canvas_height example_mounted = Fin 512"
  "currentZoom example_mounted = Some 1"
  "newAnnotation example_mounted = None"
  "created example_mounted = []"
proof -
  define c where "c = constructor_Workbench example_props"
  define sp where "sp = spectrograms example_mounted"
  have e: "example_mounted = c\<lparr>spectrograms := sp\<rparr>"
    unfolding c_def sp_def using example_spectrograms by blast
  have c: "timePxRatio c = Fin (1813 / 100)" "freqPxRatio c = Fin (1 / 2)"
    "wrapperWidth c = Fin 1813" "canvas_width c = Fin 1813" "canvas_height c = Fin 512"
    "currentZoom c = Some 1" "newAnnotation c = None" "created c = []"
    by (simp_all add: c_def constructor_Workbench_def example_props_def CANVAS_WIDTH_def
        CANVAS_HEIGHT_def)
  show "timePxRatio example_mounted = Fin (1813 / 100)"
    "freqPxRatio example_mounted = Fin (1 / 2)"
    "wrapperWidth example_mounted = Fin 1813"
    "canvas_width example_mounted = Fin 1813"
    "canvas_height example_mounted = Fin 512"
    "currentZoom example_mounted = Some 1"
    "newAnnotation example_mounted = None"
    "created example_mounted = []"
    by (simp_all add: e c)
qed

lemma example_bounds_fields:
  "rect_left example_bounds = Fin 35" "rect_right example_bounds = Fin 1848"
  "rect_top example_bounds = Fin 80" "rect_bottom example_bounds = Fin 592"
  by (simp_all add: example_bounds_def)

lemma example_props_fields:
  "duration example_props = Fin 100" "p_startFrequency example_props = Fin 50"
  "frequencyRange example_props = Fin 1024"
  by (simp_all add: example_props_def)

section \<open>The zoom controller on distinct levels\<close>

lemma findIndex_first:
  assumes "i < length xs" and "P (xs ! i)" and "\<And>j. j < i \<Longrightarrow> \<not> P (xs ! j)"
  shows "findIndex P xs = int i"
  using assms
proof (induction xs arbitrary: i)
  case Nil
  then show ?case by simp
next
  case (Cons x xs)
  show ?case
  proof (cases i)
    case 0
    with Cons.prems show ?thesis by simp
  next
    case (Suc n)
    have nP: "\<not> P x" using Cons.prems(3) [of 0] Suc by simp
    have "findIndex P xs = int n"
    proof (rule Cons.IH)
      show "n < length xs" using Cons.prems(1) Suc by simp
      show "P (xs ! n)" using Cons.prems(2) Suc by simp
      show "\<not> P (xs ! j)" if "j < n" for j
        using Cons.prems(3) [of "Suc j"] that Suc by simp
    qed
    then show ?thesis using nP Suc by (simp add: Let_def)
  qed
qed

lemma findIndex_distinct:
  assumes "distinct xs" and "i < length xs"
  shows "findIndex (\<lambda>factor. Some factor = Some (xs ! i)) xs = int i"
proof (rule findIndex_first)
  show "i < length xs" by fact
  show "Some (xs ! i) = Some (xs ! i)" by simp
  show "Some (xs ! j) \<noteq> Some (xs ! i)" if "j < i" for j
    using assms that by (auto simp: nth_eq_iff_index_eq)
qed

lemma zoomLevels_zoom [simp]: "zoomLevels (zoom p direction w) = zoomLevels w"
  by (simp add: zoomLevels_def getCurrentDetails_def zoom_def Let_def)

lemma zoom_in_step:
  assumes "distinct (zoomLevels w)" and "Suc i < length (zoomLevels w)" and "i < 4"
    and "currentZoom w = Some (zoomLevels w ! i)"
  shows "currentZoom (zoom p 1 w) = Some (zoomLevels w ! Suc i)"
proof -
  have "findIndex (\<lambda>factor. Some factor = currentZoom w) (zoomLevels w) = int i"
    using findIndex_distinct [OF assms(1), of i] assms(2,4) by simp
  then show ?thesis
    using assms(2,3) by (simp add: zoom_def array_at_def Let_def nat_add_distrib)
qed

lemma zoom_in_capped:
  assumes "distinct (zoomLevels w)" and "4 < length (zoomLevels w)"
    and "currentZoom w = Some (zoomLevels w ! 4)"
  shows "currentZoom (zoom p 1 w) = currentZoom w"
proof -
  have "findIndex (\<lambda>factor. Some factor = currentZoom w) (zoomLevels w) = int 4"
    using findIndex_distinct [OF assms(1), of 4] assms(2,3) by simp
  then show ?thesis
    by (simp add: zoom_def Let_def)
qed

lemma zoom_out_lowest:
  assumes "distinct (zoomLevels w)" and "0 < length (zoomLevels w)"
    and "currentZoom w = Some (zoomLevels w ! 0)"
  shows "currentZoom (zoom p (- 1) w) = currentZoom w"
proof -
  have "findIndex (\<lambda>factor. Some factor = currentZoom w) (zoomLevels w) = int 0"
    using findIndex_distinct [OF assms(1), of 0] assms(2,3) by simp
  then show ?thesis
    by (simp add: zoom_def Let_def)
qed



lemma zoom_out_step:
  assumes "distinct (zoomLevels w)" and "Suc i < length (zoomLevels w)"
    and "currentZoom w = Some (zoomLevels w ! Suc i)"
  shows "currentZoom (zoom p (- 1) w) = Some (zoomLevels w ! i)"
proof -
  have "findIndex (\<lambda>factor. Some factor = currentZoom w) (zoomLevels w) = int (Suc i)"
    using findIndex_distinct [OF assms(1), of "Suc i"] assms(2,3) by simp
  then show ?thesis
    using assms(2) by (simp add: zoom_def array_at_def Let_def)
qed

lemma zoom_frame:
  "wrapperWidth (zoom p direction w) = wrapperWidth w"
  "wrapperHeight (zoom p direction w) = wrapperHeight w"
  "freqPxRatio (zoom p direction w) = freqPxRatio w"
  "canvas_height (zoom p direction w) = canvas_height w"
  by (simp_all add: zoom_def Let_def)

lemma zoom_effect:
  "canvas_width (zoom p direction w) =
     jmul (wrapperWidth w) (toNumber (currentZoom (zoom p direction w)))"
  "timeAxis_width (zoom p direction w) =
     jmul (wrapperWidth w) (toNumber (currentZoom (zoom p direction w)))"
  "timePxRatio (zoom p direction w) =
     jdiv (jmul (wrapperWidth w) (toNumber (currentZoom (zoom p direction w)))) (duration p)"
  by (simp_all add: zoom_def Let_def)

lemma zoom_update:
  "zoom p direction w =
     w\<lparr>canvas_width := jmul (wrapperWidth w) (toNumber (currentZoom (zoom p direction w))),
       timeAxis_width := jmul (wrapperWidth w) (toNumber (currentZoom (zoom p direction w))),
       currentZoom := currentZoom (zoom p direction w),
       timePxRatio :=
         jdiv (jmul (wrapperWidth w) (toNumber (currentZoom (zoom p direction w)))) (duration p)\<rparr>"
  by (simp add: zoom_def Let_def)

lemma zoom_again:
  assumes "currentZoom (zoom p d2 (zoom p d1 w)) = currentZoom (zoom p d1 w)"
  shows "zoom p d2 (zoom p d1 w) = zoom p d1 w"
proof -
  define w' where "w' = zoom p d1 w"
  have a: "canvas_width w' = jmul (wrapperWidth w') (toNumber (currentZoom w'))"
    "timeAxis_width w' = jmul (wrapperWidth w') (toNumber (currentZoom w'))"
    "timePxRatio w' = jdiv (jmul (wrapperWidth w') (toNumber (currentZoom w'))) (duration p)"
    unfolding w'_def by (simp_all add: zoom_effect zoom_frame)
  have c: "currentZoom (zoom p d2 w') = currentZoom w'"
    using assms by (simp add: w'_def)
  have "zoom p d2 w' =
     w'\<lparr>canvas_width := jmul (wrapperWidth w') (toNumber (currentZoom w')),
        timeAxis_width := jmul (wrapperWidth w') (toNumber (currentZoom w')),
        currentZoom := currentZoom w',
        timePxRatio := jdiv (jmul (wrapperWidth w') (toNumber (currentZoom w'))) (duration p)\<rparr>"
    by (subst zoom_update) (simp only: c)
  also have "\<dots> = w'"
    by (rule Workbench.equality) (simp_all add: a)
  finally show ?thesis by (simp add: w'_def)
qed

lemma sorted_distinct_nth_less:
  assumes "sorted xs" and "distinct xs" and "i < j" and "j < length (xs::nat list)"
  shows "xs ! i < xs ! j"
proof -
  have "xs ! i \<le> xs ! j" using assms by (simp add: sorted_nth_mono)
  moreover have "xs ! i \<noteq> xs ! j" using assms by (simp add: nth_eq_iff_index_eq)
  ultimately show ?thesis by simp
qed

lemma currentZoom_zoom:
  "currentZoom (zoom p direction w) =
     (let oldZoomIdx = findIndex (\<lambda>factor. Some factor = currentZoom w) (zoomLevels w)
      in if direction > 0 \<and> oldZoomIdx < 4 then array_at (zoomLevels w) (oldZoomIdx + 1)
         else if direction < 0 \<and> oldZoomIdx > 0 then array_at (zoomLevels w) (oldZoomIdx - 1)
         else currentZoom w)"
  by (simp add: zoom_def Let_def)

lemma zooms_snoc: "zooms p (ds @ [d]) w = zoom p d (zooms p ds w)"
  by (simp add: zooms_def)

lemma zooms_frame:
  "wrapperWidth (zooms p ds w) = wrapperWidth w \<and>
   wrapperHeight (zooms p ds w) = wrapperHeight w \<and>
   freqPxRatio (zooms p ds w) = freqPxRatio w \<and>
   canvas_height (zooms p ds w) = canvas_height w"
proof (induction ds rule: rev_induct)
  case Nil
  show ?case by (simp add: zooms_def)
next
  case (snoc d ds)
  then show ?case by (simp add: zooms_snoc zoom_frame)
qed

lemma zooms_effect:
  assumes "ds \<noteq> []"
  shows "canvas_width (zooms p ds w) =
           jmul (wrapperWidth w) (toNumber (currentZoom (zooms p ds w))) \<and>
         timeAxis_width (zooms p ds w) =
           jmul (wrapperWidth w) (toNumber (currentZoom (zooms p ds w))) \<and>
         timePxRatio (zooms p ds w) =
           jdiv (jmul (wrapperWidth w) (toNumber (currentZoom (zooms p ds w)))) (duration p)"
proof -
  from assms obtain ds' d where ds: "ds = ds' @ [d]"
    by (cases ds rule: rev_cases) auto
  show ?thesis
    unfolding ds zooms_snoc using zooms_frame [of p ds' w]
    by (simp add: zoom_effect)
qed

section \<open>The drawing gesture\<close>

lemma computeNewAnnotation_drawPxMove [simp]:
  "computeNewAnnotation p (w\<lparr>drawPxMove := n\<rparr>) bounds e = computeNewAnnotation p w bounds e"
  by (simp add: computeNewAnnotation_def getTimeFromClientX_def getFrequencyFromClientY_def)

lemma onUpdateNewAnnotation_drawing:
  assumes "isDrawing w"
  shows "isDrawing (onUpdateNewAnnotation p bounds e w)"
    and "drawPxMove (onUpdateNewAnnotation p bounds e w) = drawPxMove w + 1"
    and "created (onUpdateNewAnnotation p bounds e w) = created w"
  using assms by (simp_all add: onUpdateNewAnnotation_def Let_def)

lemma onUpdateNewAnnotation_below:
  assumes "isDrawing w" and "drawPxMove w < 2"
  shows "onUpdateNewAnnotation p bounds e w = w\<lparr>drawPxMove := drawPxMove w + 1\<rparr>"
  using assms by (simp add: onUpdateNewAnnotation_def Let_def)

lemma pointerMoves_drawing:
  assumes "isDrawing w"
  shows "isDrawing (pointerMoves p ms w) \<and>
         drawPxMove (pointerMoves p ms w) = drawPxMove w + length ms \<and>
         created (pointerMoves p ms w) = created w"
  using assms
proof (induction ms arbitrary: w)
  case Nil
  then show ?case by (simp add: pointerMoves_def)
next
  case (Cons m ms)
  have "pointerMoves p (m # ms) w = pointerMoves p ms (onUpdateNewAnnotation p (fst m) (snd m) w)"
    by (simp add: pointerMoves_def)
  then show ?case
    using Cons.IH [of "onUpdateNewAnnotation p (fst m) (snd m) w"]
      onUpdateNewAnnotation_drawing [OF Cons.prems, of p "fst m" "snd m"]
    by simp
qed

lemma pointerMoves_below:
  assumes "isDrawing w" and "drawPxMove w + length ms \<le> 2"
  shows "pointerMoves p ms w = w\<lparr>drawPxMove := drawPxMove w + length ms\<rparr>"
  using assms
proof (induction ms arbitrary: w)
  case Nil
  then show ?case by (simp add: pointerMoves_def)
next
  case (Cons m ms)
  have step: "onUpdateNewAnnotation p (fst m) (snd m) w = w\<lparr>drawPxMove := drawPxMove w + 1\<rparr>"
    using Cons.prems by (intro onUpdateNewAnnotation_below) simp_all
  have "pointerMoves p (m # ms) w = pointerMoves p ms (w\<lparr>drawPxMove := drawPxMove w + 1\<rparr>)"
    by (simp add: pointerMoves_def step)
  also have "\<dots> = w\<lparr>drawPxMove := drawPxMove w + 1\<rparr>\<lparr>drawPxMove := drawPxMove w + 1 + length ms\<rparr>"
    using Cons.IH [of "w\<lparr>drawPxMove := drawPxMove w + 1\<rparr>"] Cons.prems by simp
  finally show ?case by simp
qed

lemma onStartNewAnnotation_fields:
  "isDrawing (onStartNewAnnotation p bounds e w)"
  "drawPxMove (onStartNewAnnotation p bounds e w) = 0"
  "created (onStartNewAnnotation p bounds e w) = created w"
  by (simp_all add: onStartNewAnnotation_def Let_def)

lemma created_gesture:
  "created (gesture p down ms up w) =
     created w @
       (if 2 < length ms
        then [computeNewAnnotation p
                (pointerMoves p ms (onStartNewAnnotation p (fst down) (snd down) w))
                (fst up) (snd up)]
        else [])"
  using pointerMoves_drawing [of "onStartNewAnnotation p (fst down) (snd down) w" p ms]
  by (simp add: gesture_def onEndNewAnnotation_def Let_def onStartNewAnnotation_fields)

lemma gesture_reset:
  "\<not> isDrawing (gesture p down ms up w)" "drawPxMove (gesture p down ms up w) = 0"
  by (simp_all add: gesture_def onEndNewAnnotation_def Let_def)

lemma gesture_click:
  assumes "length ms \<le> 2"
  shows "gesture p down ms up w =
           (onStartNewAnnotation p (fst down) (snd down) w)\<lparr>isDrawing := False, drawPxMove := 0\<rparr>"
  using assms pointerMoves_below [of "onStartNewAnnotation p (fst down) (snd down) w" ms p]
  by (simp add: gesture_def onEndNewAnnotation_def Let_def onStartNewAnnotation_fields)

lemma gesture_commit:
  assumes "2 < length ms"
  shows "newAnnotation (gesture p down ms up w) = None"
  using assms pointerMoves_drawing [of "onStartNewAnnotation p (fst down) (snd down) w" p ms]
  by (simp add: gesture_def onEndNewAnnotation_def Let_def onStartNewAnnotation_fields)


lemma onStartNewAnnotation_frame:
  "timePxRatio (onStartNewAnnotation p bounds e w) = timePxRatio w"
  "canvas_width (onStartNewAnnotation p bounds e w) = canvas_width w"
  "freqPxRatio (onStartNewAnnotation p bounds e w) = freqPxRatio w"
  "canvas_height (onStartNewAnnotation p bounds e w) = canvas_height w"
  "drawStartTime (onStartNewAnnotation p bounds e w) = getTimeFromClientX w bounds (clientX e)"
  "drawStartFrequency (onStartNewAnnotation p bounds e w) =
     getFrequencyFromClientY p w bounds (clientY e)"
  by (simp_all add: onStartNewAnnotation_def Let_def)

lemma onUpdateNewAnnotation_frame:
  "timePxRatio (onUpdateNewAnnotation p bounds e w) = timePxRatio w"
  "canvas_width (onUpdateNewAnnotation p bounds e w) = canvas_width w"
  "freqPxRatio (onUpdateNewAnnotation p bounds e w) = freqPxRatio w"
  "canvas_height (onUpdateNewAnnotation p bounds e w) = canvas_height w"
  "drawStartTime (onUpdateNewAnnotation p bounds e w) = drawStartTime w"
  "drawStartFrequency (onUpdateNewAnnotation p bounds e w) = drawStartFrequency w"
  by (simp_all add: onUpdateNewAnnotation_def Let_def)

lemma pointerMoves_frame:
  "timePxRatio (pointerMoves p ms w) = timePxRatio w \<and>
   canvas_width (pointerMoves p ms w) = canvas_width w \<and>
   freqPxRatio (pointerMoves p ms w) = freqPxRatio w \<and>
   canvas_height (pointerMoves p ms w) = canvas_height w \<and>
   drawStartTime (pointerMoves p ms w) = drawStartTime w \<and>
   drawStartFrequency (pointerMoves p ms w) = drawStartFrequency w"
proof (induction ms arbitrary: w)
  case Nil
  show ?case by (simp add: pointerMoves_def)
next
  case (Cons m ms)
  have "pointerMoves p (m # ms) w = pointerMoves p ms (onUpdateNewAnnotation p (fst m) (snd m) w)"
    by (simp add: pointerMoves_def)
  then show ?case
    using Cons.IH [of "onUpdateNewAnnotation p (fst m) (snd m) w"]
    by (simp add: onUpdateNewAnnotation_frame)
qed

lemma example_dragging_fields:
  "isDrawing example_dragging" "drawPxMove example_dragging = 3"
  "drawStartTime example_dragging = Fin 10" "drawStartFrequency example_dragging = Fin 500"
  "created example_dragging = []"
  "getTimeFromClientX example_dragging (fst example_up) (clientX (snd example_up)) = Fin 4"
  "getFrequencyFromClientY example_props example_dragging (fst example_up) (clientY (snd example_up))
     = Fin 200"
proof -
  let ?s = "onStartNewAnnotation example_props (fst example_down) (snd example_down) example_mounted"
  have d: "isDrawing ?s" by (simp add: onStartNewAnnotation_fields)
  from pointerMoves_drawing [OF d, of example_props "[example_move, example_move, example_move]"]
  show "isDrawing example_dragging" "drawPxMove example_dragging = 3"
    "created example_dragging = []"
    by (simp_all add: example_dragging_def onStartNewAnnotation_fields example_fields)
  have fr: "timePxRatio example_dragging = Fin (1813 / 100)"
    "canvas_width example_dragging = Fin 1813"
    "freqPxRatio example_dragging = Fin (1 / 2)"
    "canvas_height example_dragging = Fin 512"
    unfolding example_dragging_def
    by (simp_all add: pointerMoves_frame onStartNewAnnotation_frame example_fields)
  show "drawStartTime example_dragging = Fin 10"
    unfolding example_dragging_def
    by (simp add: pointerMoves_frame onStartNewAnnotation_frame getTimeFromClientX_def
        example_fields example_down_def example_bounds_def)
  show "drawStartFrequency example_dragging = Fin 500"
    unfolding example_dragging_def
    by (simp add: pointerMoves_frame onStartNewAnnotation_frame getFrequencyFromClientY_def
        example_fields example_down_def example_bounds_def example_props_def)
  show "getTimeFromClientX example_dragging (fst example_up) (clientX (snd example_up)) = Fin 4"
    by (simp add: getTimeFromClientX_def fr example_up_def example_bounds_def)
  show "getFrequencyFromClientY example_props example_dragging (fst example_up)
          (clientY (snd example_up)) = Fin 200"
    by (simp add: getFrequencyFromClientY_def fr example_up_def example_bounds_def
        example_props_def)
qed

section \<open>Claims\<close>

subsection \<open>Drawing gesture: the movement threshold\<close>

text \<open>
  Claim C1, amended. For every gesture of a pointer-down on the canvas, \<open>m\<close> pointer-move
  events and a pointer-up: if \<open>m \<le> 2\<close> then \<open>onAnnotationCreated\<close> is not called; if
  \<open>m > 2\<close> then it is called exactly once, at the pointer-up, with the annotation computed
  from the pointer-up event. No call is made before the pointer-up, and after it the
  component is not drawing and its movement counter is 0.
\<close>

theorem drag_threshold_two:
  "(length ms \<le> 2 \<longrightarrow> created (gesture p down ms up w) = created w) \<and>
   (2 < length ms \<longrightarrow>
      created (gesture p down ms up w) =
        created w @
          [computeNewAnnotation p
             (pointerMoves p ms (onStartNewAnnotation p (fst down) (snd down) w))
             (fst up) (snd up)]) \<and>
   created (pointerMoves p ms (onStartNewAnnotation p (fst down) (snd down) w)) = created w \<and>
   \<not> isDrawing (gesture p down ms up w) \<and> drawPxMove (gesture p down ms up w) = 0"
  using pointerMoves_drawing [of "onStartNewAnnotation p (fst down) (snd down) w" p ms]
  by (simp add: created_gesture gesture_reset onStartNewAnnotation_fields)

theorem drag_threshold_two_witness:
  "created (gesture example_props example_down [example_move, example_move] example_up
     example_mounted) = [] \<and>
   length (created (gesture example_props example_down
     [example_move, example_move, example_move, example_move] example_up example_mounted)) = 1"
  using drag_threshold_two [of "[example_move, example_move]" example_props example_down
      example_up example_mounted]
    drag_threshold_two [of "[example_move, example_move, example_move, example_move]"
      example_props example_down example_up example_mounted]
  by (simp add: example_fields)

text \<open>
  Claim C1 as stated, with no annotation for \<open>m \<le> 3\<close>, fails at \<open>m = 3\<close>: the third
  pointer-move raises the counter to 3, which is more than 2, and the pointer-up calls
  \<open>onAnnotationCreated\<close>.
\<close>

theorem three_moves_create_annotation:
  "created example_mounted = [] \<and>
   created (gesture example_props example_down [example_move, example_move, example_move]
     example_up example_mounted) =
     [\<lparr>ann_id = [], annotation = [], startTime = Fin 4, endTime = Fin 10,
       startFrequency = Fin 200, endFrequency = Fin 500, active = False\<rparr>]"
  by (simp add: created_gesture example_fields example_dragging_def [symmetric]
      computeNewAnnotation_def example_dragging_fields)

subsection \<open>Wheel zoom\<close>

text \<open>
  Claim C2, amended. For every wheel event on the canvas the default behaviour is
  prevented and the magnitude of \<open>deltaY\<close> is ignored: a negative \<open>deltaY\<close> makes
  exactly one call \<open>zoom(1)\<close> (zoom in), a positive \<open>deltaY\<close> makes exactly one call
  \<open>zoom(-1)\<close> (zoom out), and a \<open>deltaY\<close> that is neither makes none. With distinct
  levels, where the current factor has a next-higher level at an index of at most 4 the
  event with a negative \<open>deltaY\<close> is exactly one level transition, to that higher
  factor; where the current factor has a next-lower level the event with a positive
  \<open>deltaY\<close> is exactly one level transition, to that lower factor.
\<close>

theorem onWheelZoom_direction:
  "defaultPrevented (fst (onWheelZoom p event w)) \<and>
   deltaY (fst (onWheelZoom p event w)) = deltaY event \<and>
   (jlt (deltaY event) (Fin 0) \<longrightarrow> snd (onWheelZoom p event w) = zoom p 1 w) \<and>
   (jgt (deltaY event) (Fin 0) \<longrightarrow> snd (onWheelZoom p event w) = zoom p (- 1) w) \<and>
   (\<not> jlt (deltaY event) (Fin 0) \<and> \<not> jgt (deltaY event) (Fin 0) \<longrightarrow>
      snd (onWheelZoom p event w) = w) \<and>
   (distinct (zoomLevels w) \<and> Suc i < length (zoomLevels w) \<longrightarrow>
      zoomLevels w ! i < zoomLevels w ! Suc i \<and>
      (jlt (deltaY event) (Fin 0) \<and> i < 4 \<and> currentZoom w = Some (zoomLevels w ! i) \<longrightarrow>
         currentZoom (snd (onWheelZoom p event w)) = Some (zoomLevels w ! Suc i)) \<and>
      (jgt (deltaY event) (Fin 0) \<and> currentZoom w = Some (zoomLevels w ! Suc i) \<longrightarrow>
         currentZoom (snd (onWheelZoom p event w)) = Some (zoomLevels w ! i)))"
proof -
  have neg: "snd (onWheelZoom p event w) = zoom p 1 w" if "jlt (deltaY event) (Fin 0)"
    using that by (simp add: onWheelZoom_def)
  have pos: "snd (onWheelZoom p event w) = zoom p (- 1) w" if "jgt (deltaY event) (Fin 0)"
    using that jlt_asym [of "deltaY event" "Fin 0"] by (auto simp: onWheelZoom_def jgt_def)
  have zero: "snd (onWheelZoom p event w) = w"
    if "\<not> jlt (deltaY event) (Fin 0)" and "\<not> jgt (deltaY event) (Fin 0)"
    using that by (simp add: onWheelZoom_def)
  have ev: "defaultPrevented (fst (onWheelZoom p event w))"
    "deltaY (fst (onWheelZoom p event w)) = deltaY event"
    by (simp_all add: onWheelZoom_def)
  have lv: "zoomLevels w ! i < zoomLevels w ! Suc i \<and>
      (jlt (deltaY event) (Fin 0) \<and> i < 4 \<and> currentZoom w = Some (zoomLevels w ! i) \<longrightarrow>
         currentZoom (snd (onWheelZoom p event w)) = Some (zoomLevels w ! Suc i)) \<and>
      (jgt (deltaY event) (Fin 0) \<and> currentZoom w = Some (zoomLevels w ! Suc i) \<longrightarrow>
         currentZoom (snd (onWheelZoom p event w)) = Some (zoomLevels w ! i))"
    if dist: "distinct (zoomLevels w)" and len: "Suc i < length (zoomLevels w)"
  proof -
    have srt: "sorted (zoomLevels w)" by (simp add: zoomLevels_def)
    have less: "zoomLevels w ! i < zoomLevels w ! Suc i"
      by (rule sorted_distinct_nth_less [OF srt dist _ len]) simp
    have up: "currentZoom (snd (onWheelZoom p event w)) = Some (zoomLevels w ! Suc i)"
      if "jlt (deltaY event) (Fin 0)" and "i < 4" and "currentZoom w = Some (zoomLevels w ! i)"
      using neg [OF that(1)] zoom_in_step [OF dist len that(2,3), of p] by simp
    have down: "currentZoom (snd (onWheelZoom p event w)) = Some (zoomLevels w ! i)"
      if "jgt (deltaY event) (Fin 0)" and "currentZoom w = Some (zoomLevels w ! Suc i)"
      using pos [OF that(1)] zoom_out_step [OF dist len that(2), of p] by simp
    show ?thesis using less up down by blast
  qed
  show ?thesis using neg pos zero ev lv by blast
qed

theorem onWheelZoom_direction_witness:
  "defaultPrevented (fst (onWheelZoom example_props \<lparr>deltaY = Fin (- 100), defaultPrevented = False\<rparr>
     example_mounted)) \<and>
   snd (onWheelZoom example_props \<lparr>deltaY = Fin (- 100), defaultPrevented = False\<rparr> example_mounted)
     = zoom example_props 1 example_mounted \<and>
   currentZoom (snd (onWheelZoom example_props \<lparr>deltaY = Fin (- 100), defaultPrevented = False\<rparr>
     example_mounted)) = Some 2 \<and>
   snd (onWheelZoom example_props \<lparr>deltaY = Fin 3, defaultPrevented = False\<rparr>
     (zoom example_props 1 example_mounted))
     = zoom example_props (- 1) (zoom example_props 1 example_mounted) \<and>
   currentZoom (snd (onWheelZoom example_props \<lparr>deltaY = Fin 3, defaultPrevented = False\<rparr>
     (zoom example_props 1 example_mounted))) = Some 1 \<and>
   snd (onWheelZoom example_props \<lparr>deltaY = Fin 0, defaultPrevented = False\<rparr> example_mounted)
     = example_mounted"
proof -
  have z: "currentZoom (zoom example_props 1 example_mounted) = Some 2"
    by (simp add: currentZoom_zoom example_zoomLevels example_fields array_at_def)
  note a = onWheelZoom_direction [of example_props
      "\<lparr>deltaY = Fin (- 100), defaultPrevented = False\<rparr>" example_mounted 0]
  note b = onWheelZoom_direction [of example_props
      "\<lparr>deltaY = Fin 3, defaultPrevented = False\<rparr>" "zoom example_props 1 example_mounted" 0]
  note c = onWheelZoom_direction [of example_props
      "\<lparr>deltaY = Fin 0, defaultPrevented = False\<rparr>" example_mounted 0]
  have 1: "defaultPrevented (fst (onWheelZoom example_props
      \<lparr>deltaY = Fin (- 100), defaultPrevented = False\<rparr> example_mounted))"
    using a [THEN conjunct1] .
  have 2: "snd (onWheelZoom example_props \<lparr>deltaY = Fin (- 100), defaultPrevented = False\<rparr>
      example_mounted) = zoom example_props 1 example_mounted"
    using a [THEN conjunct2, THEN conjunct2, THEN conjunct1] by simp
  have 3: "currentZoom (snd (onWheelZoom example_props
      \<lparr>deltaY = Fin (- 100), defaultPrevented = False\<rparr> example_mounted)) = Some 2"
    using a [THEN conjunct2, THEN conjunct2, THEN conjunct2, THEN conjunct2, THEN conjunct2]
    by (simp add: example_zoomLevels example_fields)
  have 4: "snd (onWheelZoom example_props \<lparr>deltaY = Fin 3, defaultPrevented = False\<rparr>
      (zoom example_props 1 example_mounted))
     = zoom example_props (- 1) (zoom example_props 1 example_mounted)"
    using b [THEN conjunct2, THEN conjunct2, THEN conjunct2, THEN conjunct1] by simp
  have 5: "currentZoom (snd (onWheelZoom example_props \<lparr>deltaY = Fin 3, defaultPrevented = False\<rparr>
      (zoom example_props 1 example_mounted))) = Some 1"
    using b [THEN conjunct2, THEN conjunct2, THEN conjunct2, THEN conjunct2, THEN conjunct2] z
    by (simp add: example_zoomLevels)
  have 6: "snd (onWheelZoom example_props \<lparr>deltaY = Fin 0, defaultPrevented = False\<rparr>
      example_mounted) = example_mounted"
    using c [THEN conjunct2, THEN conjunct2, THEN conjunct2, THEN conjunct2, THEN conjunct1]
    by simp
  show ?thesis
    using 1 2 3 4 5 6 by blast
qed

text \<open>
  Claim C2 as stated, with a negative \<open>deltaY\<close> zooming out and a positive one zooming
  in, and a level transition at every event, fails: at zoom factor 2 of the levels
  1, 2, 4, \<dots> a wheel event with \<open>deltaY = -100\<close> leads to factor 4, and one with
  \<open>deltaY = 100\<close> to factor 1; at factor 1, the lowest level, a wheel event with
  \<open>deltaY = 100\<close> leaves the factor at 1.
\<close>

theorem wheel_negative_delta_zooms_in:
  "currentZoom (zoom example_props 1 example_mounted) = Some 2 \<and>
   currentZoom (snd (onWheelZoom example_props \<lparr>deltaY = Fin (- 100), defaultPrevented = False\<rparr>
     (zoom example_props 1 example_mounted))) = Some 4 \<and>
   currentZoom (snd (onWheelZoom example_props \<lparr>deltaY = Fin 100, defaultPrevented = False\<rparr>
     (zoom example_props 1 example_mounted))) = Some 1 \<and>
   currentZoom example_mounted = Some 1 \<and>
   currentZoom (snd (onWheelZoom example_props \<lparr>deltaY = Fin 100, defaultPrevented = False\<rparr>
     example_mounted)) = Some 1"
  by (simp add: onWheelZoom_def currentZoom_zoom example_zoomLevels example_fields array_at_def)

subsection \<open>Normalized annotations\<close>

text \<open>
  Claim C3. In a drag with the recorded origin \<open>(t0, f0)\<close> and the pointer mapped to
  \<open>(t1, f1)\<close> by the coordinate transforms, all four of them numbers, the annotation of
  \<open>computeNewAnnotation\<close> has \<open>startTime = min t0 t1\<close>, \<open>endTime = max t0 t1\<close>,
  \<open>startFrequency = min f0 f1\<close> and \<open>endFrequency = max f0 f1\<close>. It is the draft stored
  by a pointer-move past the threshold and the annotation \<open>onAnnotationCreated\<close> is
  called with at the pointer-up; its start time is at most its end time and its start
  frequency at most its end frequency.
\<close>

theorem computeNewAnnotation_normalized:
  assumes "drawStartTime w = Fin t0" and "drawStartFrequency w = Fin f0"
    and "getTimeFromClientX w bounds (clientX e) = Fin t1"
    and "getFrequencyFromClientY p w bounds (clientY e) = Fin f1"
  shows "computeNewAnnotation p w bounds e =
           \<lparr>ann_id = [], annotation = [],
            startTime = Fin (min t0 t1), endTime = Fin (max t0 t1),
            startFrequency = Fin (min f0 f1), endFrequency = Fin (max f0 f1),
            active = False\<rparr> \<and>
         (isDrawing w \<and> 2 \<le> drawPxMove w \<longrightarrow>
            newAnnotation (onUpdateNewAnnotation p bounds e w) =
              Some (computeNewAnnotation p w bounds e)) \<and>
         (isDrawing w \<and> 2 < drawPxMove w \<longrightarrow>
            created (onEndNewAnnotation p bounds e w) =
              created w @ [computeNewAnnotation p w bounds e]) \<and>
         jle (startTime (computeNewAnnotation p w bounds e))
             (endTime (computeNewAnnotation p w bounds e)) \<and>
         jle (startFrequency (computeNewAnnotation p w bounds e))
             (endFrequency (computeNewAnnotation p w bounds e))"
proof -
  have c: "computeNewAnnotation p w bounds e =
           \<lparr>ann_id = [], annotation = [],
            startTime = Fin (min t0 t1), endTime = Fin (max t0 t1),
            startFrequency = Fin (min f0 f1), endFrequency = Fin (max f0 f1),
            active = False\<rparr>"
    using assms by (simp add: computeNewAnnotation_def min.commute max.commute)
  have u: "newAnnotation (onUpdateNewAnnotation p bounds e w) =
              Some (computeNewAnnotation p w bounds e)"
    if "isDrawing w" and "2 \<le> drawPxMove w"
    using that by (simp add: onUpdateNewAnnotation_def Let_def)
  have d: "created (onEndNewAnnotation p bounds e w) =
              created w @ [computeNewAnnotation p w bounds e]"
    if "isDrawing w" and "2 < drawPxMove w"
    using that by (simp add: onEndNewAnnotation_def Let_def)
  show ?thesis
    using u d by (simp add: c min_le_iff_disj le_max_iff_disj)
qed

theorem computeNewAnnotation_normalized_witness:
  "computeNewAnnotation example_props example_dragging (fst example_up) (snd example_up) =
     \<lparr>ann_id = [], annotation = [], startTime = Fin 4, endTime = Fin 10,
      startFrequency = Fin 200, endFrequency = Fin 500, active = False\<rparr> \<and>
   newAnnotation (onUpdateNewAnnotation example_props (fst example_up) (snd example_up)
     example_dragging) =
     Some (computeNewAnnotation example_props example_dragging (fst example_up) (snd example_up)) \<and>
   created (onEndNewAnnotation example_props (fst example_up) (snd example_up) example_dragging) =
     [computeNewAnnotation example_props example_dragging (fst example_up) (snd example_up)]"
  using computeNewAnnotation_normalized [OF example_dragging_fields(3,4,6,7)]
  by (simp add: example_dragging_fields)

subsection \<open>Coordinate transforms\<close>

text \<open>
  Claim C4. With a pixel-per-second ratio that is a number other than zero, and a canvas
  rectangle whose left bound is not right of its right bound: for every \<open>clientX\<close> left
  of the left bound \<open>getTimeFromClientX\<close> returns 0, for every \<open>clientX\<close> right of the
  right bound it returns the canvas width divided by \<open>timePxRatio\<close>, and for every
  \<open>clientX\<close> in between, the bounds included, it returns
  \<open>(clientX - left) / timePxRatio\<close>.
\<close>

theorem getTimeFromClientX_clamped:
  assumes "timePxRatio w = Fin q" and "q \<noteq> 0"
    and "rect_left bounds = Fin l" and "rect_right bounds = Fin r" and "l \<le> r"
    and "canvas_width w = Fin cw"
  shows "(x < l \<longrightarrow> getTimeFromClientX w bounds (Fin x) = Fin 0) \<and>
         (r < x \<longrightarrow> getTimeFromClientX w bounds (Fin x) = Fin (cw / q)) \<and>
         (l \<le> x \<and> x \<le> r \<longrightarrow> getTimeFromClientX w bounds (Fin x) = Fin ((x - l) / q))"
  using assms by (simp add: getTimeFromClientX_def)

theorem getTimeFromClientX_clamped_witness:
  "getTimeFromClientX example_mounted example_bounds (Fin 10) = Fin 0 \<and>
   getTimeFromClientX example_mounted example_bounds (Fin 2000) = Fin 100 \<and>
   getTimeFromClientX example_mounted example_bounds (Fin 1848) = Fin 100 \<and>
   getTimeFromClientX example_mounted example_bounds (Fin 35) = Fin 0"
proof -
  have nz: "(1813 / 100 :: real) \<noteq> 0" by simp
  have le: "(35::real) \<le> 1848" by simp
  note th = getTimeFromClientX_clamped [OF example_fields(1) nz example_bounds_fields(1,2) le
      example_fields(4)]
  show ?thesis
    using th [of 10] th [of 2000] th [of 1848] th [of 35] by simp
qed

text \<open>
  Claim C5. With a pixel-per-Hz ratio that is a number other than zero, and a canvas
  rectangle as high as the canvas (\<open>bottom - top\<close> is the canvas height): for every
  \<open>clientY\<close> at or above the top \<open>getFrequencyFromClientY\<close> returns
  \<open>startFrequency + height / freqPxRatio\<close>, for every \<open>clientY\<close> at or below the bottom
  it returns \<open>startFrequency\<close>, and for every \<open>clientY\<close> strictly between it returns
  \<open>startFrequency + (bottom - clientY) / freqPxRatio\<close>. With a positive ratio the
  frequency increases upward: a larger \<open>clientY\<close> never gives a larger frequency.
\<close>

theorem getFrequencyFromClientY_clamped:
  assumes "freqPxRatio w = Fin q" and "q \<noteq> 0"
    and "rect_top bounds = Fin t" and "rect_bottom bounds = Fin b"
    and "canvas_height w = Fin h" and "b - t = h" and "0 \<le> h"
    and "p_startFrequency p = Fin f0"
  shows "(y \<le> t \<longrightarrow> getFrequencyFromClientY p w bounds (Fin y) = Fin (f0 + h / q)) \<and>
         (b \<le> y \<longrightarrow> getFrequencyFromClientY p w bounds (Fin y) = Fin f0) \<and>
         (t < y \<and> y < b \<longrightarrow>
            getFrequencyFromClientY p w bounds (Fin y) = Fin (f0 + (b - y) / q)) \<and>
         (0 < q \<and> y \<le> y' \<longrightarrow>
            jle (getFrequencyFromClientY p w bounds (Fin y'))
                (getFrequencyFromClientY p w bounds (Fin y)))"
  using assms by (auto simp add: getFrequencyFromClientY_def divide_le_cancel)

theorem getFrequencyFromClientY_clamped_witness:
  "getFrequencyFromClientY example_props example_mounted example_bounds (Fin 80) = Fin 1074 \<and>
   getFrequencyFromClientY example_props example_mounted example_bounds (Fin 7) = Fin 1074 \<and>
   getFrequencyFromClientY example_props example_mounted example_bounds (Fin 592) = Fin 50 \<and>
   getFrequencyFromClientY example_props example_mounted example_bounds (Fin 336) = Fin 562 \<and>
   jle (getFrequencyFromClientY example_props example_mounted example_bounds (Fin 336))
       (getFrequencyFromClientY example_props example_mounted example_bounds (Fin 100))"
proof -
  have nz: "(1 / 2 :: real) \<noteq> 0" by simp
  have h: "(592::real) - 80 = 512" by simp
  have nn: "(0::real) \<le> 512" by simp
  note th = getFrequencyFromClientY_clamped [OF example_fields(2) nz example_bounds_fields(3,4)
      example_fields(5) h nn example_props_fields(2)]
  show ?thesis
    using th [of 80] th [of 7] th [of 592] th [of 336] th [of 100 336] by simp
qed

subsection \<open>Tile pyramid\<close>

text \<open>
  Claim C6. For a configuration with \<open>2 ^ k - 1\<close> URLs, \<open>k \<ge> 1\<close>, and a duration
  \<open>d > 0\<close>, the builder returns, for the configuration alone and as the callback of
  \<open>flatMap\<close>, exactly \<open>k\<close> zoom levels with the factors \<open>1, 2, 4, \<dots>, 2 ^ (k - 1)\<close> in
  this order. The level of factor \<open>z\<close> has \<open>z\<close> tiles, tile \<open>i\<close> starts at \<open>i * d / z\<close>
  and ends at \<open>(i + 1) * d / z\<close>, after its start; the first tile starts at 0, the last
  one ends at \<open>d\<close>, and each tile ends where the next one starts.
\<close>

theorem buildSpectrogramsDetails_pyramid:
  assumes "length (urls conf) = 2 ^ k - 1" and "1 \<le> k"
    and d: "duration p = Fin d" and pos: "0 < d"
  shows "\<exists>levels. buildConf rt p conf = Inr levels \<and>
           buildSpectrogramsDetails rt p [conf] = Inr levels \<and>
           length levels = k \<and>
           map sd_zoom levels = map (\<lambda>i. 2 ^ i) [0..<k] \<and>
           (\<forall>lv \<in> set levels.
              length (images lv) = sd_zoom lv \<and>
              (\<forall>i < sd_zoom lv.
                 tile_start (images lv ! i) = Fin (real i * d / real (sd_zoom lv)) \<and>
                 tile_end (images lv ! i) = Fin ((real i + 1) * d / real (sd_zoom lv)) \<and>
                 jlt (tile_start (images lv ! i)) (tile_end (images lv ! i))) \<and>
              tile_start (images lv ! 0) = Fin 0 \<and>
              tile_end (images lv ! (sd_zoom lv - 1)) = Fin d \<and>
              (\<forall>i. i + 1 < sd_zoom lv \<longrightarrow>
                 tile_end (images lv ! i) = tile_start (images lv ! (i + 1))))"
proof -
  define base where "base = (case re_match rt (hd (urls conf)) of
                               Some parts \<Rightarrow> parts | None \<Rightarrow> ([], [], []))"
  define levels where "levels = map (\<lambda>zoom.
                 \<lparr>sd_nfft = up_nfft conf, sd_winsize = up_winsize conf,
                  sd_overlap = up_overlap conf, sd_zoom = zoom,
                  urlPrefix = fst base, urlFileName = fst (snd base),
                  urlFileExtension = snd (snd base),
                  images = buildImages rt p base zoom\<rparr>) (map (\<lambda>i. 2 ^ i) [0..<k])"
  have b: "buildConf rt p conf = Inr levels"
    unfolding levels_def base_def by (rule buildConf_power [OF assms(1,2)])
  have 1: "buildSpectrogramsDetails rt p [conf] = Inr levels"
    by (simp add: buildSpectrogramsDetails_def b)
  have 2: "length levels = k" by (simp add: levels_def)
  have 3: "map sd_zoom levels = map (\<lambda>i. 2 ^ i) [0..<k]" by (simp add: levels_def comp_def)
  have 4: "length (images lv) = sd_zoom lv \<and>
              (\<forall>i < sd_zoom lv.
                 tile_start (images lv ! i) = Fin (real i * d / real (sd_zoom lv)) \<and>
                 tile_end (images lv ! i) = Fin ((real i + 1) * d / real (sd_zoom lv)) \<and>
                 jlt (tile_start (images lv ! i)) (tile_end (images lv ! i))) \<and>
              tile_start (images lv ! 0) = Fin 0 \<and>
              tile_end (images lv ! (sd_zoom lv - 1)) = Fin d \<and>
              (\<forall>i. i + 1 < sd_zoom lv \<longrightarrow>
                 tile_end (images lv ! i) = tile_start (images lv ! (i + 1)))"
    if "lv \<in> set levels" for lv
  proof -
    from that obtain j where j: "j < k" and z: "sd_zoom lv = 2 ^ j"
      and im: "images lv = buildImages rt p base (2 ^ j)"
      by (auto simp: levels_def)
    have zpos: "0 < (2::nat) ^ j" by simp
    show ?thesis
      unfolding z im
      using buildImages_tiles [OF d pos zpos, of rt base] buildImages_length [of rt p base "2 ^ j"]
      by blast
  qed
  show ?thesis
    using b 1 2 3 4 by blast
qed

theorem buildSpectrogramsDetails_pyramid_witness:
  "\<exists>levels. buildConf example_builtins example_props example_conf = Inr levels \<and>
     buildSpectrogramsDetails example_builtins example_props [example_conf] = Inr levels \<and>
     length levels = 6 \<and>
     map sd_zoom levels = [1, 2, 4, 8, 16, 32] \<and>
     (\<forall>lv \<in> set levels.
        length (images lv) = sd_zoom lv \<and>
        (\<forall>i < sd_zoom lv.
           tile_start (images lv ! i) = Fin (real i * 100 / real (sd_zoom lv)) \<and>
           tile_end (images lv ! i) = Fin ((real i + 1) * 100 / real (sd_zoom lv)) \<and>
           jlt (tile_start (images lv ! i)) (tile_end (images lv ! i))) \<and>
        tile_start (images lv ! 0) = Fin 0 \<and>
        tile_end (images lv ! (sd_zoom lv - 1)) = Fin 100 \<and>
        (\<forall>i. i + 1 < sd_zoom lv \<longrightarrow>
           tile_end (images lv ! i) = tile_start (images lv ! (i + 1))))"
proof -
  have len: "length (urls example_conf) = 2 ^ 6 - 1" by (simp add: example_conf_def)
  have six: "(1::nat) \<le> 6" by simp
  have pos: "(0::real) < 100" by simp
  have upt: "map (\<lambda>i. 2 ^ i) [0..<6] = [1, 2, 4, 8, 16, 32::nat]" by (simp add: upt_conv_Cons)
  show ?thesis
    using buildSpectrogramsDetails_pyramid [OF len six example_props_fields(1) pos,
        of example_builtins]
    unfolding upt .
qed

subsection \<open>Zoom controller\<close>

text \<open>
  Claim C7, amended. For a resolution with at least six distinct zoom levels, starting at
  the lowest one: each of the first four calls \<open>zoom(1)\<close> moves to the next-higher
  factor, reaching level index 4; the fifth and the sixth call leave the component, and
  so \<open>currentZoom\<close>, unchanged; a call \<open>zoom(-1)\<close> at level index 0 leaves
  \<open>currentZoom\<close> unchanged, and a second one changes nothing. \<open>zoom\<close> has no error
  result.
\<close>

theorem zoom_capped_idempotent:
  fixes p :: WorkbenchProps and w :: Workbench
  defines "w1 \<equiv> zoom p 1 w"
  defines "w2 \<equiv> zoom p 1 w1"
  defines "w3 \<equiv> zoom p 1 w2"
  defines "w4 \<equiv> zoom p 1 w3"
  defines "w5 \<equiv> zoom p 1 w4"
  defines "w6 \<equiv> zoom p 1 w5"
  assumes dist: "distinct (zoomLevels w)" and len: "6 \<le> length (zoomLevels w)"
    and low: "currentZoom w = Some (zoomLevels w ! 0)"
  shows "currentZoom w1 = Some (zoomLevels w ! 1) \<and> zoomLevels w ! 0 < zoomLevels w ! 1 \<and>
         currentZoom w2 = Some (zoomLevels w ! 2) \<and> zoomLevels w ! 1 < zoomLevels w ! 2 \<and>
         currentZoom w3 = Some (zoomLevels w ! 3) \<and> zoomLevels w ! 2 < zoomLevels w ! 3 \<and>
         currentZoom w4 = Some (zoomLevels w ! 4) \<and> zoomLevels w ! 3 < zoomLevels w ! 4 \<and>
         w5 = w4 \<and> w6 = w4 \<and>
         currentZoom (zoom p (- 1) w) = currentZoom w \<and>
         zoom p (- 1) (zoom p (- 1) w) = zoom p (- 1) w"
proof -
  have srt: "sorted (zoomLevels w)" by (simp add: zoomLevels_def)
  note less = sorted_distinct_nth_less [OF srt dist]
  have c1: "currentZoom w1 = Some (zoomLevels w ! 1)"
    unfolding w1_def using zoom_in_step [OF dist _ _ low, of p] len by simp
  have c2: "currentZoom w2 = Some (zoomLevels w ! 2)"
    unfolding w2_def using zoom_in_step [of w1 1 p] dist len c1
    by (simp add: w1_def numeral_2_eq_2)
  have c3: "currentZoom w3 = Some (zoomLevels w ! 3)"
    unfolding w3_def using zoom_in_step [of w2 2 p] dist len c2
    by (simp add: w1_def w2_def numeral_3_eq_3)
  have c4: "currentZoom w4 = Some (zoomLevels w ! 4)"
    unfolding w4_def using zoom_in_step [of w3 3 p] dist len c3
    by (simp add: w1_def w2_def w3_def eval_nat_numeral)
  have "currentZoom w5 = currentZoom w4"
    unfolding w5_def using zoom_in_capped [of w4 p] dist len c4
    by (simp add: w1_def w2_def w3_def w4_def)
  then have e5: "w5 = w4"
    unfolding w5_def w4_def by (rule zoom_again)
  have e6: "w6 = w4"
    unfolding w6_def e5 using e5 by (simp add: w5_def)
  have ne: "0 < length (zoomLevels w)" using len by linarith
  have o: "currentZoom (zoom p (- 1) w) = currentZoom w"
    by (rule zoom_out_lowest [OF dist ne low])
  have "currentZoom (zoom p (- 1) (zoom p (- 1) w)) = currentZoom (zoom p (- 1) w)"
    by (rule zoom_out_lowest) (use dist ne o low in simp_all)
  then have i: "zoom p (- 1) (zoom p (- 1) w) = zoom p (- 1) w"
    by (rule zoom_again)
  show ?thesis
    using c1 c2 c3 c4 e5 e6 o i less [of 0 1] less [of 1 2] less [of 2 3] less [of 3 4] len
    by simp
qed

theorem zoom_capped_idempotent_witness:
  "currentZoom (zoom example_props 1 example_mounted) = Some 2 \<and>
   currentZoom (zoom example_props 1 (zoom example_props 1 example_mounted)) = Some 4 \<and>
   currentZoom (zoom example_props 1 (zoom example_props 1 (zoom example_props 1
     example_mounted))) = Some 8 \<and>
   currentZoom (zoom example_props 1 (zoom example_props 1 (zoom example_props 1
     (zoom example_props 1 example_mounted)))) = Some 16 \<and>
   zoom example_props 1 (zoom example_props 1 (zoom example_props 1 (zoom example_props 1
     (zoom example_props 1 example_mounted)))) =
   zoom example_props 1 (zoom example_props 1 (zoom example_props 1
     (zoom example_props 1 example_mounted))) \<and>
   currentZoom (zoom example_props (- 1) example_mounted) = Some 1"
proof -
  have dist: "distinct (zoomLevels example_mounted)" by (simp add: example_zoomLevels)
  have len: "6 \<le> length (zoomLevels example_mounted)" by (simp add: example_zoomLevels)
  have low: "currentZoom example_mounted = Some (zoomLevels example_mounted ! 0)"
    by (simp add: example_zoomLevels example_fields)
  show ?thesis
    using zoom_capped_idempotent [OF dist len low, of example_props]
    by (simp add: example_zoomLevels example_fields)
qed

text \<open>
  Claim C7 as stated, with each of the first five calls moving to the next-higher factor,
  fails at the fifth call: with the levels 1, 2, 4, 8, 16, 32 the factor is 16 after four
  calls, at index 4, and still 16 after the fifth.
\<close>

theorem fifth_zoom_in_stays:
  "zoomLevels example_mounted = [1, 2, 4, 8, 16, 32] \<and>
   currentZoom example_mounted = Some 1 \<and>
   currentZoom (zoom example_props 1 (zoom example_props 1 (zoom example_props 1
     (zoom example_props 1 example_mounted)))) = Some 16 \<and>
   currentZoom (zoom example_props 1 (zoom example_props 1 (zoom example_props 1
     (zoom example_props 1 (zoom example_props 1 example_mounted))))) = Some 16"
  by (simp add: currentZoom_zoom example_zoomLevels example_fields array_at_def)

text \<open>
  Claim C8. Every call of \<open>zoom\<close> sets the width of the canvas and of the time axis to
  \<open>wrapperWidth * newZoom\<close> and \<open>timePxRatio\<close> to \<open>wrapperWidth * newZoom / duration\<close>,
  where \<open>newZoom\<close> is the zoom factor after the call, and leaves \<open>freqPxRatio\<close>, the
  canvas height, \<open>wrapperWidth\<close> and \<open>wrapperHeight\<close> as they were. So it is after every
  sequence of calls: the widths and \<open>timePxRatio\<close> follow the current zoom factor, and
  \<open>freqPxRatio\<close> and the canvas height are those of the start.
\<close>

theorem zoom_resizes_time_only:
  "canvas_width (zoom p direction w) =
     jmul (wrapperWidth w) (toNumber (currentZoom (zoom p direction w))) \<and>
   timeAxis_width (zoom p direction w) =
     jmul (wrapperWidth w) (toNumber (currentZoom (zoom p direction w))) \<and>
   timePxRatio (zoom p direction w) =
     jdiv (jmul (wrapperWidth w) (toNumber (currentZoom (zoom p direction w)))) (duration p) \<and>
   freqPxRatio (zoom p direction w) = freqPxRatio w \<and>
   canvas_height (zoom p direction w) = canvas_height w \<and>
   wrapperWidth (zoom p direction w) = wrapperWidth w \<and>
   wrapperHeight (zoom p direction w) = wrapperHeight w \<and>
   (wrapperWidth w = Fin baseWidth \<and> currentZoom (zoom p direction w) = Some newZoom \<and>
    duration p = Fin d \<and> d \<noteq> 0 \<longrightarrow>
      canvas_width (zoom p direction w) = Fin (baseWidth * real newZoom) \<and>
      timePxRatio (zoom p direction w) = Fin (baseWidth * real newZoom / d)) \<and>
   freqPxRatio (zooms p directions w) = freqPxRatio w \<and>
   canvas_height (zooms p directions w) = canvas_height w \<and>
   (directions \<noteq> [] \<longrightarrow>
      canvas_width (zooms p directions w) =
        jmul (wrapperWidth w) (toNumber (currentZoom (zooms p directions w))) \<and>
      timePxRatio (zooms p directions w) =
        jdiv (jmul (wrapperWidth w) (toNumber (currentZoom (zooms p directions w))))
          (duration p))"
proof -
  have one: "wrapperWidth w = Fin baseWidth \<and> currentZoom (zoom p direction w) = Some newZoom \<and>
      duration p = Fin d \<and> d \<noteq> 0 \<longrightarrow>
        canvas_width (zoom p direction w) = Fin (baseWidth * real newZoom) \<and>
        timePxRatio (zoom p direction w) = Fin (baseWidth * real newZoom / d)"
    by (simp add: zoom_effect toNumber_def)
  have many: "directions \<noteq> [] \<longrightarrow>
      canvas_width (zooms p directions w) =
        jmul (wrapperWidth w) (toNumber (currentZoom (zooms p directions w))) \<and>
      timePxRatio (zooms p directions w) =
        jdiv (jmul (wrapperWidth w) (toNumber (currentZoom (zooms p directions w))))
          (duration p)"
    using zooms_effect [of directions p w] by blast
  show ?thesis
    using one many zooms_frame [of p directions w] zoom_effect [of p direction w]
      zoom_frame [of p direction w]
    by blast
qed

theorem zoom_resizes_time_only_witness:
  "canvas_width (zoom example_props 1 example_mounted) = Fin 3626 \<and>
   timePxRatio (zoom example_props 1 example_mounted) = Fin (3626 / 100) \<and>
   freqPxRatio (zoom example_props 1 example_mounted) = Fin (1 / 2) \<and>
   canvas_height (zoom example_props 1 example_mounted) = Fin 512 \<and>
   currentZoom (zooms example_props [1, 1, - 1, 1] example_mounted) = Some 4 \<and>
   canvas_width (zooms example_props [1, 1, - 1, 1] example_mounted) = Fin 7252 \<and>
   timePxRatio (zooms example_props [1, 1, - 1, 1] example_mounted) = Fin (7252 / 100) \<and>
   freqPxRatio (zooms example_props [1, 1, - 1, 1] example_mounted) = Fin (1 / 2)"
proof -
  have z: "currentZoom (zoom example_props 1 example_mounted) = Some 2"
    by (simp add: currentZoom_zoom example_zoomLevels example_fields array_at_def)
  have zs: "currentZoom (zooms example_props [1, 1, - 1, 1] example_mounted) = Some 4"
    by (simp add: zooms_def currentZoom_zoom example_zoomLevels example_fields array_at_def)
  have nz: "(100::real) \<noteq> 0" by simp
  have ne: "[1, 1, - 1, 1] \<noteq> ([]::int list)" by simp
  show ?thesis
    using zoom_resizes_time_only [of example_props 1 example_mounted 1813 2 100 "[1, 1, - 1, 1]"]
      z zs nz ne example_fields example_props_fields
    by (simp add: toNumber_def)
qed

subsection \<open>Time axis steps\<close>

text \<open>
  Claim C9. The steps of the time axis are a function of the visible duration
  \<open>wrapperWidth / timePxRatio\<close>: up to 60 s they are \<open>(1, 5)\<close>, up to 120 s \<open>(2, 5)\<close>,
  up to 240 s \<open>(4, 5)\<close> and above \<open>(10, 6)\<close>; so 45 s selects \<open>(1, 5)\<close>, 90 s
  \<open>(2, 5)\<close>, 200 s \<open>(4, 5)\<close> and 300 s \<open>(10, 6)\<close>.
\<close>

theorem renderTimeAxis_step_selection:
  assumes "jdiv (wrapperWidth w) (timePxRatio w) = Fin v"
  shows "renderTimeAxis_steps w =
           (if v \<le> 60 then (1, 5) else if v \<le> 120 then (2, 5)
            else if v \<le> 240 then (4, 5) else (10, 6)) \<and>
         (v = 45 \<longrightarrow> renderTimeAxis_steps w = (1, 5)) \<and>
         (v = 90 \<longrightarrow> renderTimeAxis_steps w = (2, 5)) \<and>
         (v = 200 \<longrightarrow> renderTimeAxis_steps w = (4, 5)) \<and>
         (v = 300 \<longrightarrow> renderTimeAxis_steps w = (10, 6))"
  using assms by (simp add: renderTimeAxis_steps_def)

theorem renderTimeAxis_step_selection_witness:
  "renderTimeAxis_steps (constructor_Workbench (example_props\<lparr>duration := Fin 45\<rparr>)) = (1, 5) \<and>
   renderTimeAxis_steps (constructor_Workbench (example_props\<lparr>duration := Fin 90\<rparr>)) = (2, 5) \<and>
   renderTimeAxis_steps (constructor_Workbench (example_props\<lparr>duration := Fin 200\<rparr>)) = (4, 5) \<and>
   renderTimeAxis_steps (constructor_Workbench (example_props\<lparr>duration := Fin 300\<rparr>)) = (10, 6) \<and>
   renderTimeAxis_steps (constructor_Workbench (example_props\<lparr>duration := Fin 60\<rparr>)) = (1, 5) \<and>
   renderTimeAxis_steps (constructor_Workbench (example_props\<lparr>duration := Fin 240\<rparr>)) = (4, 5)"
proof -
  have v: "jdiv (wrapperWidth (constructor_Workbench (example_props\<lparr>duration := Fin x\<rparr>)))
             (timePxRatio (constructor_Workbench (example_props\<lparr>duration := Fin x\<rparr>))) = Fin x"
    if "x \<noteq> 0" for x
    using that by (simp add: constructor_Workbench_def CANVAS_WIDTH_def)
  have nz: "(45::real) \<noteq> 0" "(90::real) \<noteq> 0" "(200::real) \<noteq> 0" "(300::real) \<noteq> 0"
    "(60::real) \<noteq> 0" "(240::real) \<noteq> 0"
    by simp_all
  show ?thesis
    using renderTimeAxis_step_selection [OF v [OF nz(1)]]
      renderTimeAxis_step_selection [OF v [OF nz(2)]]
      renderTimeAxis_step_selection [OF v [OF nz(3)]]
      renderTimeAxis_step_selection [OF v [OF nz(4)]]
      renderTimeAxis_step_selection [OF v [OF nz(5)]]
      renderTimeAxis_step_selection [OF v [OF nz(6)]]
    by simp
qed

subsection \<open>The draft after a click\<close>

text \<open>
  Claim C10. After a pointer-down, at most two pointer-moves and a pointer-up, the
  component is the one the pointer-down left, with the drawing flag and the movement
  counter reset and nothing else changed: \<open>newAnnotation\<close> still holds the draft of zero
  width and height made at the pointer-down. Only a gesture of more than two moves, which
  creates an annotation, sets \<open>newAnnotation\<close> back to \<open>undefined\<close>.
\<close>

theorem click_keeps_draft:
  assumes "length ms \<le> 2"
  shows "gesture p down ms up w =
           (onStartNewAnnotation p (fst down) (snd down) w)\<lparr>isDrawing := False, drawPxMove := 0\<rparr> \<and>
         newAnnotation (gesture p down ms up w) =
           Some \<lparr>ann_id = [], annotation = [],
                 startTime = getTimeFromClientX w (fst down) (clientX (snd down)),
                 endTime = getTimeFromClientX w (fst down) (clientX (snd down)),
                 startFrequency = getFrequencyFromClientY p w (fst down) (clientY (snd down)),
                 endFrequency = getFrequencyFromClientY p w (fst down) (clientY (snd down)),
                 active = False\<rparr> \<and>
         (2 < length ms' \<longrightarrow> newAnnotation (gesture p down ms' up w) = None)"
  using gesture_click [OF assms, of p down up w] gesture_commit [of ms' p down up w]
  by (simp add: onStartNewAnnotation_def Let_def)

theorem click_keeps_draft_witness:
  "newAnnotation example_mounted = None \<and>
   newAnnotation (gesture example_props example_down [example_move, example_move] example_up
     example_mounted) =
     Some \<lparr>ann_id = [], annotation = [], startTime = Fin 10, endTime = Fin 10,
           startFrequency = Fin 500, endFrequency = Fin 500, active = False\<rparr> \<and>
   newAnnotation (gesture example_props example_down [example_move, example_move, example_move]
     example_up example_mounted) = None"
proof -
  have l: "length [example_move, example_move] \<le> 2" by simp
  have t: "getTimeFromClientX example_mounted (fst example_down) (clientX (snd example_down))
             = Fin 10"
    by (simp add: getTimeFromClientX_def example_fields example_down_def example_bounds_def)
  have f: "getFrequencyFromClientY example_props example_mounted (fst example_down)
             (clientY (snd example_down)) = Fin 500"
    by (simp add: getFrequencyFromClientY_def example_fields example_down_def example_bounds_def
        example_props_def)
  note th = click_keeps_draft [OF l, of example_props example_down example_up example_mounted
      "[example_move, example_move, example_move]"]
  have a: "newAnnotation (gesture example_props example_down [example_move, example_move]
      example_up example_mounted) =
     Some \<lparr>ann_id = [], annotation = [], startTime = Fin 10, endTime = Fin 10,
           startFrequency = Fin 500, endFrequency = Fin 500, active = False\<rparr>"
    using th [THEN conjunct2, THEN conjunct1] unfolding t f .
  have b: "newAnnotation (gesture example_props example_down
      [example_move, example_move, example_move] example_up example_mounted) = None"
    using th [THEN conjunct2, THEN conjunct2] by simp
  show ?thesis
    using a b example_fields(7) by blast
qed

end
